theory Spec2Isabelle
  imports Main "HOL-Library.Sublist"
begin

section \<open>Slackbot tools (cookbook/slackbot/tools.py)\<close>

text \<open>
  The module holds five coroutines: two documentation searches, the release notes
  fetcher, the topic dispatcher and the code example retriever. Each one is embedded as
  a function from the state before the call to a result and the state after it. A raised
  exception is the \<open>Inl\<close> branch of the result. Text is a \<open>string\<close>; the only delimiter
  the module looks for is ASCII, so bytes and code points split alike.
\<close>

subsection \<open>Values, errors, effects\<close>

text \<open>
  The values \<open>response.json()\<close> can produce, numbers restricted to integers. A dictionary
  is the list of its items in insertion order; the keys of a parsed JSON object are
  strings.
\<close>

datatype pyval =
    PNone
  | PBool bool
  | PInt int
  | PStr string
  | PList "pyval list"
  | PDict "(string \<times> pyval) list"

text \<open>The hashable values among them: what a dictionary key and a label can be.\<close>

datatype pykey = KNone | KBool bool | KInt int | KStr string

datatype error =
    KeyError pykey
  | IndexError
  | ValueError string
  | TypeError
  | AttributeError
  | OtherError string

type_synonym 'a result = "error + 'a"

text \<open>What a call does to the outside, in the order it does it.\<close>

datatype event =
    SecretLoad string
  | BackendQuery "string option" "string list" string
  | HttpGet string
  | Classify string "pykey list"
  | HandlerCall string

text \<open>
  The mutable state of the process: the module attribute \<open>tpuf.api_key\<close>
  (\<open>None\<close> or a string), and the effects so far.
\<close>

record state =
  api_key :: "string option"
  trace :: "event list"

text \<open>An HTTP response: its body as text, and what \<open>response.json()\<close> makes of it.\<close>

record response =
  text_of :: string
  json_of :: "pyval result"

text \<open>
  The collaborators the module imports, as deterministic stubs: the secret block
  (\<open>Secret.load(name)\<close> followed by \<open>.get()\<close>), the vector store query (which reads
  the credential from \<open>tpuf.api_key\<close>), the HTTP client, the classifier, and Python's
  \<open>str()\<close> on values that are not strings.
\<close>

record world =
  secret_load :: "string \<Rightarrow> string result"
  multi_query_tpuf :: "string option \<Rightarrow> string list \<Rightarrow> string \<Rightarrow> string result"
  http_get :: "string \<Rightarrow> response result"
  classify_async :: "string \<Rightarrow> pykey list \<Rightarrow> pykey result"
  builtin_str :: "pyval \<Rightarrow> string"

definition log :: "event \<Rightarrow> state \<Rightarrow> state" where
  "log e s = s\<lparr>trace := trace s @ [e]\<rparr>"

subsection \<open>Python's \<open>str.split(sep)\<close> and list indexing\<close>

text \<open>
  \<open>split_from sep cur s\<close> scans \<open>s\<close> from the left; \<open>cur\<close> is the segment read so far.
  At each occurrence of \<open>sep\<close> the segment is closed and the scan resumes behind the
  occurrence.
\<close>

function split_from :: "string \<Rightarrow> string \<Rightarrow> string \<Rightarrow> string list" where
  "split_from sep cur s =
     (if s = [] then [cur]
      else if sep \<noteq> [] \<and> prefix sep s then cur # split_from sep [] (drop (length sep) s)
      else split_from sep (cur @ [hd s]) (tl s))"
  by pat_completeness auto
termination
  by (relation "measure (\<lambda>(sep, cur, s). length s)") (auto simp: prefix_def)

declare split_from.simps [simp del]

text \<open>An empty separator raises \<open>ValueError\<close>.\<close>

definition py_split :: "string \<Rightarrow> string \<Rightarrow> string list result" where
  "py_split s sep =
     (if sep = [] then Inl (ValueError ''empty separator'') else Inr (split_from sep [] s))"

text \<open>\<open>xs[i]\<close> for an index that is not negative.\<close>

definition py_index :: "'a list \<Rightarrow> nat \<Rightarrow> 'a result" where
  "py_index xs i = (if i < length xs then Inr (xs ! i) else Inl IndexError)"

subsection \<open>Release notes\<close>

definition release_notes_url :: string where
  "release_notes_url = ''https://raw.githubusercontent.com/PrefectHQ/prefect/main/RELEASE-NOTES.md''"

definition newline :: string where
  "newline = [CHR 0x0A]"

definition h2_delimiter :: string where
  "h2_delimiter = newline @ ''## ''"

definition get_latest_release_notes :: "world \<Rightarrow> state \<Rightarrow> string result \<times> state" where
  "get_latest_release_notes w s =
     (let s1 = log (HttpGet release_notes_url) s in
      case http_get w release_notes_url of
        Inl e \<Rightarrow> (Inl e, s1)
      | Inr resp \<Rightarrow>
          (case py_split (text_of resp) h2_delimiter of
             Inl e \<Rightarrow> (Inl e, s1)
           | Inr parts \<Rightarrow> (py_index parts 1, s1)))"

subsection \<open>Topic dispatch\<close>

text \<open>
  A registered handler is a plain function, which runs when it is called, or a coroutine
  function, whose call returns a coroutine that runs when it is awaited.
\<close>

datatype handler =
    SyncHandler "state \<Rightarrow> string result \<times> state"
  | AsyncHandler "state \<Rightarrow> string result \<times> state"

type_synonym registry = "string \<rightharpoonup> handler"

definition tool_map :: "world \<Rightarrow> registry" where
  "tool_map w = [''latest_prefect_version'' \<mapsto> AsyncHandler (get_latest_release_notes w)]"

text \<open>
  The body of \<open>get_info\<close>, over an arbitrary registry. The \<open>try\<close> block holds the
  lookup, the call and the \<open>await\<close>; its \<open>except KeyError\<close> clause turns a
  \<open>KeyError\<close> from any of them into the \<open>ValueError\<close>.
\<close>

definition invalid_topic :: "string \<Rightarrow> error" where
  "invalid_topic topic = ValueError (''Invalid topic: '' @ topic)"

definition try_body :: "registry \<Rightarrow> string \<Rightarrow> state \<Rightarrow> string result \<times> state" where
  "try_body tm topic s =
     (case tm topic of
        None \<Rightarrow> (Inl (KeyError (KStr topic)), s)
      | Some (SyncHandler f) \<Rightarrow> f (log (HandlerCall topic) s)
      | Some (AsyncHandler f) \<Rightarrow> f (log (HandlerCall topic) s))"

definition get_info_in :: "registry \<Rightarrow> string \<Rightarrow> state \<Rightarrow> string result \<times> state" where
  "get_info_in tm topic s =
     (case try_body tm topic s of
        (Inl (KeyError k), s') \<Rightarrow> (Inl (invalid_topic topic), s')
      | (r, s') \<Rightarrow> (r, s'))"

definition get_info :: "world \<Rightarrow> string \<Rightarrow> state \<Rightarrow> string result \<times> state" where
  "get_info w topic s = get_info_in (tool_map w) topic s"

subsection \<open>Documentation search\<close>

text \<open>Python's truth value of \<open>tpuf.api_key\<close>: \<open>None\<close> and the empty string are false.\<close>

definition truthy :: "string option \<Rightarrow> bool" where
  "truthy k = (case k of None \<Rightarrow> False | Some v \<Rightarrow> v \<noteq> [])"

text \<open>
  The call \<open>await multi_query_tpuf(queries, namespace=ns)\<close>: the backend reads the
  credential from the module attribute.
\<close>

definition query_backend :: "world \<Rightarrow> string list \<Rightarrow> string \<Rightarrow> state \<Rightarrow> string result \<times> state" where
  "query_backend w queries ns s =
     (multi_query_tpuf w (api_key s) queries ns, log (BackendQuery (api_key s) queries ns) s)"

definition search_prefect_2x_docs :: "world \<Rightarrow> string list \<Rightarrow> state \<Rightarrow> string result \<times> state" where
  "search_prefect_2x_docs w queries s =
     (if \<not> truthy (api_key s) then
        (case secret_load w ''tpuf-api-key'' of
           Inl e \<Rightarrow> (Inl e, log (SecretLoad ''tpuf-api-key'') s)
         | Inr k \<Rightarrow>
             query_backend w queries ''prefect-2''
               ((log (SecretLoad ''tpuf-api-key'') s)\<lparr>api_key := Some k\<rparr>))
      else query_backend w queries ''prefect-2'' s)"

definition search_prefect_3x_docs :: "world \<Rightarrow> string list \<Rightarrow> state \<Rightarrow> string result \<times> state" where
  "search_prefect_3x_docs w queries s =
     (if \<not> truthy (api_key s) then
        (case secret_load w ''tpuf-api-key'' of
           Inl e \<Rightarrow> (Inl e, log (SecretLoad ''tpuf-api-key'') s)
         | Inr k \<Rightarrow>
             query_backend w queries ''prefect-3''
               ((log (SecretLoad ''tpuf-api-key'') s)\<lparr>api_key := Some k\<rparr>))
      else query_backend w queries ''prefect-3'' s)"

subsection \<open>The manifest and its flattening\<close>

text \<open>\<open>obj.get(key, default)\<close>: only a dictionary has the method.\<close>

definition py_get :: "pyval \<Rightarrow> string \<Rightarrow> pyval \<Rightarrow> pyval result" where
  "py_get obj key dflt =
     (case obj of
        PDict kvs \<Rightarrow> Inr (case map_of kvs key of None \<Rightarrow> dflt | Some v \<Rightarrow> v)
      | _ \<Rightarrow> Inl AttributeError)"

text \<open>
  What a \<open>for\<close> clause iterates over: the elements of a list, the characters of a string,
  the keys of a dictionary; the other values are not iterable.
\<close>

definition py_iter :: "pyval \<Rightarrow> pyval list result" where
  "py_iter v =
     (case v of
        PList xs \<Rightarrow> Inr xs
      | PStr s \<Rightarrow> Inr (map (\<lambda>c. PStr [c]) s)
      | PDict kvs \<Rightarrow> Inr (map (\<lambda>kv. PStr (fst kv)) kvs)
      | _ \<Rightarrow> Inl TypeError)"

text \<open>A value as a dictionary key: lists and dictionaries are unhashable.\<close>

definition key_of :: "pyval \<Rightarrow> pykey option" where
  "key_of v =
     (case v of
        PNone \<Rightarrow> Some KNone
      | PBool b \<Rightarrow> Some (KBool b)
      | PInt i \<Rightarrow> Some (KInt i)
      | PStr s \<Rightarrow> Some (KStr s)
      | _ \<Rightarrow> None)"

definition py_hash :: "pyval \<Rightarrow> pykey result" where
  "py_hash v = (case key_of v of None \<Rightarrow> Inl TypeError | Some k \<Rightarrow> Inr k)"

text \<open>Equality of keys is Python's \<open>==\<close>: \<open>True\<close> is \<open>1\<close> and \<open>False\<close> is \<open>0\<close>.\<close>

definition key_norm :: "pykey \<Rightarrow> pykey" where
  "key_norm k = (case k of KBool b \<Rightarrow> KInt (if b then 1 else 0) | _ \<Rightarrow> k)"

definition key_eq :: "pykey \<Rightarrow> pykey \<Rightarrow> bool" where
  "key_eq a b = (key_norm a = key_norm b)"

text \<open>
  A dictionary under construction, as the list of its items in insertion order.
  \<open>d[k] = v\<close> on a key already there keeps its place and its key object and replaces the
  value; \<open>d[k]\<close> on a missing key raises \<open>KeyError\<close>.
\<close>

type_synonym pydict = "(pykey \<times> pyval) list"

fun dict_set :: "pydict \<Rightarrow> pykey \<Rightarrow> pyval \<Rightarrow> pydict" where
  "dict_set [] k v = [(k, v)]"
| "dict_set ((k', v') # d) k v =
     (if key_eq k' k then (k', v) # d else (k', v') # dict_set d k v)"

fun dict_get :: "pydict \<Rightarrow> pykey \<Rightarrow> pyval result" where
  "dict_get [] k = Inl (KeyError k)"
| "dict_get ((k', v') # d) k = (if key_eq k' k then Inr v' else dict_get d k)"

text \<open>
  The dictionary comprehension of \<open>get_prefect_code_example\<close>. The inner clause, over the
  items of one category: key expression, value expression, then the store.
\<close>

fun add_items :: "pydict \<Rightarrow> pyval list \<Rightarrow> pydict result" where
  "add_items d [] = Inr d"
| "add_items d (item # items) =
     (case py_get item ''description'' PNone of
        Inl e \<Rightarrow> Inl e
      | Inr dv \<Rightarrow>
          (case py_get item ''relative_path'' PNone of
             Inl e \<Rightarrow> Inl e
           | Inr pv \<Rightarrow>
               (case py_hash dv of
                  Inl e \<Rightarrow> Inl e
                | Inr k \<Rightarrow> add_items (dict_set d k pv) items)))"

text \<open>The outer clause, over the categories.\<close>

fun add_categories :: "pydict \<Rightarrow> pyval list \<Rightarrow> pydict result" where
  "add_categories d [] = Inr d"
| "add_categories d (category # categories) =
     (case py_get category ''examples'' (PList []) of
        Inl e \<Rightarrow> Inl e
      | Inr ex \<Rightarrow>
          (case py_iter ex of
             Inl e \<Rightarrow> Inl e
           | Inr items \<Rightarrow>
               (case add_items d items of
                  Inl e \<Rightarrow> Inl e
                | Inr d' \<Rightarrow> add_categories d' categories)))"

definition example_items_of :: "pyval \<Rightarrow> pydict result" where
  "example_items_of manifest =
     (case py_get manifest ''categories'' (PList []) of
        Inl e \<Rightarrow> Inl e
      | Inr cats \<Rightarrow>
          (case py_iter cats of
             Inl e \<Rightarrow> Inl e
           | Inr categories \<Rightarrow> add_categories [] categories))"

subsection \<open>Code example retrieval\<close>

definition base_url :: string where
  "base_url = ''https://raw.githubusercontent.com/zzstoatzz/prefect-code-examples/main''"

definition manifest_url :: string where
  "manifest_url = base_url @ ''/views/README.json''"

text \<open>
  A value inside an f-string: a string stands for itself, \<open>None\<close>, \<open>True\<close> and \<open>False\<close>
  for their names, and a number or a container for what the built-in \<open>str()\<close> makes of it.
\<close>

definition py_str :: "world \<Rightarrow> pyval \<Rightarrow> string" where
  "py_str w v =
     (case v of
        PStr s \<Rightarrow> s
      | PNone \<Rightarrow> ''None''
      | PBool b \<Rightarrow> (if b then ''True'' else ''False'')
      | _ \<Rightarrow> builtin_str w v)"

definition get_prefect_code_example :: "world \<Rightarrow> string \<Rightarrow> state \<Rightarrow> string result \<times> state" where
  "get_prefect_code_example w related_to s =
     (let s1 = log (HttpGet manifest_url) s in
      case http_get w manifest_url of
        Inl e \<Rightarrow> (Inl e, s1)
      | Inr resp \<Rightarrow>
     (case json_of resp of
        Inl e \<Rightarrow> (Inl e, s1)
      | Inr manifest \<Rightarrow>
     (case example_items_of manifest of
        Inl e \<Rightarrow> (Inl e, s1)
      | Inr example_items \<Rightarrow>
     (let labels = map fst example_items;
          s2 = log (Classify related_to labels) s1 in
      case classify_async w related_to labels of
        Inl e \<Rightarrow> (Inl e, s2)
      | Inr key \<Rightarrow>
     (case dict_get example_items key of
        Inl e \<Rightarrow> (Inl e, s2)
      | Inr path \<Rightarrow>
     (let best_link = base_url @ ''/'' @ py_str w path;
          s3 = log (HttpGet best_link) s2 in
      case http_get w best_link of
        Inl e \<Rightarrow> (Inl e, s3)
      | Inr code \<Rightarrow>
          (Inr (''LINK:'' @ newline @ best_link @ newline @ newline
                @ '' EXAMPLE:'' @ newline @ text_of code), s3)))))))"

section \<open>Vocabulary of the properties\<close>

subsection \<open>Occurrences of a delimiter\<close>

text \<open>The positions of a text at which a separator starts, in increasing order.\<close>

definition occurrences :: "string \<Rightarrow> string \<Rightarrow> nat list" where
  "occurrences sep s = filter (\<lambda>i. prefix sep (drop i s)) [0..<length s]"

text \<open>The part of a list from position \<open>i\<close> up to, not including, position \<open>j\<close>.\<close>

definition slice :: "'a list \<Rightarrow> nat \<Rightarrow> nat \<Rightarrow> 'a list" where
  "slice xs i j = take (j - i) (drop i xs)"

subsection \<open>Counting effects\<close>

fun is_secret_load :: "event \<Rightarrow> bool" where
  "is_secret_load (SecretLoad name) = True"
| "is_secret_load e = False"

definition secret_loads :: "state \<Rightarrow> nat" where
  "secret_loads s = length (filter is_secret_load (trace s))"

subsection \<open>The manifest as the specification reads it\<close>

text \<open>A field of a JSON object, when the value is an object and has the key.\<close>

definition field :: "pyval \<Rightarrow> string \<Rightarrow> pyval option" where
  "field obj key = (case obj of PDict kvs \<Rightarrow> map_of kvs key | _ \<Rightarrow> None)"

text \<open>A field holding a list; a missing key stands for the empty list.\<close>

definition list_field :: "pyval \<Rightarrow> string \<Rightarrow> pyval list" where
  "list_field obj key = (case field obj key of Some (PList xs) \<Rightarrow> xs | _ \<Rightarrow> [])"

text \<open>A scalar field; a missing key stands for \<open>None\<close>.\<close>

definition scalar_field :: "pyval \<Rightarrow> string \<Rightarrow> pyval" where
  "scalar_field obj key = (case field obj key of Some v \<Rightarrow> v | None \<Rightarrow> PNone)"

text \<open>
  The expected shape \<open>{categories: [{examples: [{description, relative_path}, ...]}, ...]}\<close>,
  every key of it optional, and every description usable as a dictionary key.
\<close>

definition is_dict :: "pyval \<Rightarrow> bool" where
  "is_dict v = (case v of PDict kvs \<Rightarrow> True | _ \<Rightarrow> False)"

definition list_or_missing :: "pyval \<Rightarrow> string \<Rightarrow> bool" where
  "list_or_missing obj key =
     (case field obj key of None \<Rightarrow> True | Some (PList xs) \<Rightarrow> True | Some v \<Rightarrow> False)"

definition item_shape :: "pyval \<Rightarrow> bool" where
  "item_shape item = (is_dict item \<and> key_of (scalar_field item ''description'') \<noteq> None)"

definition category_shape :: "pyval \<Rightarrow> bool" where
  "category_shape category =
     (is_dict category \<and> list_or_missing category ''examples''
      \<and> list_all item_shape (list_field category ''examples''))"

definition manifest_shape :: "pyval \<Rightarrow> bool" where
  "manifest_shape manifest =
     (is_dict manifest \<and> list_or_missing manifest ''categories''
      \<and> list_all category_shape (list_field manifest ''categories''))"

text \<open>
  All (description, relative path) pairs of the manifest, category by category, in the
  order of the document.
\<close>

definition item_entry :: "pyval \<Rightarrow> pyval \<times> pyval" where
  "item_entry item = (scalar_field item ''description'', scalar_field item ''relative_path'')"

definition category_entries :: "pyval \<Rightarrow> (pyval \<times> pyval) list" where
  "category_entries category = map item_entry (list_field category ''examples'')"

definition manifest_entries :: "pyval \<Rightarrow> (pyval \<times> pyval) list" where
  "manifest_entries manifest = concat (map category_entries (list_field manifest ''categories''))"

text \<open>Last write wins: a description stands for the path of its last entry.\<close>

definition describes :: "pykey \<Rightarrow> pyval \<times> pyval \<Rightarrow> bool" where
  "describes k entry = (case key_of (fst entry) of None \<Rightarrow> False | Some k' \<Rightarrow> key_eq k' k)"

definition last_write_wins :: "(pyval \<times> pyval) list \<Rightarrow> pykey \<Rightarrow> pyval option" where
  "last_write_wins entries k =
     (case filter (describes k) entries of [] \<Rightarrow> None | e # es \<Rightarrow> Some (snd (last (e # es))))"

subsection \<open>The output format as the specification words it\<close>

text \<open>
  A \<open>LINK:\<close> line, the URL, a blank line, an \<open>EXAMPLE:\<close> line, the content.
\<close>

definition spec_format :: "string \<Rightarrow> string \<Rightarrow> string" where
  "spec_format link content =
     ''LINK:'' @ newline @ link @ newline @ newline @ ''EXAMPLE:'' @ newline @ content"

subsection \<open>Stub collaborators\<close>

text \<open>The state of a process that has done nothing yet.\<close>

definition fresh :: state where
  "fresh = \<lparr>api_key = None, trace = []\<rparr>"

text \<open>A response with a plain text body, and one whose body parses as the given value.\<close>

definition text_response :: "string \<Rightarrow> response" where
  "text_response body = \<lparr>text_of = body, json_of = Inl (ValueError ''not JSON'')\<rparr>"

definition json_response :: "pyval \<Rightarrow> response" where
  "json_response v = \<lparr>text_of = [], json_of = Inr v\<rparr>"

text \<open>An HTTP stub that serves the listed pages and fails to connect anywhere else.\<close>

definition serve :: "(string \<times> response) list \<Rightarrow> string \<Rightarrow> response result" where
  "serve pages url =
     (case map_of pages url of None \<Rightarrow> Inl (OtherError ''connection failed'') | Some r \<Rightarrow> Inr r)"

text \<open>
  A world from a secret, an HTTP stub and the classifier's answer; its backend echoes the
  namespace and the queries.
\<close>

definition stub_world :: "string result \<Rightarrow> (string \<Rightarrow> response result) \<Rightarrow> pykey result \<Rightarrow> world" where
  "stub_world secret http label =
     \<lparr>secret_load = (\<lambda>name. secret),
      multi_query_tpuf = (\<lambda>key queries ns. Inr (ns @ '': '' @ concat queries)),
      http_get = http,
      classify_async = (\<lambda>data labels. label),
      builtin_str = (\<lambda>v. ''None'')\<rparr>"

text \<open>The manifest of the retry scenario, and the two pages it needs.\<close>

definition retry_manifest :: pyval where
  "retry_manifest =
     PDict [(''categories'', PList [PDict [(''examples'', PList [PDict
       [(''description'', PStr ''retry a flow''),
        (''relative_path'', PStr ''examples/retry.py'')]])]])]"

definition retry_pages :: "(string \<times> response) list" where
  "retry_pages =
     [(manifest_url, json_response retry_manifest),
      (base_url @ ''/examples/retry.py'', text_response ''flow.retry()'')]"

definition retry_world :: world where
  "retry_world = stub_world (Inr ''k'') (serve retry_pages) (Inr (KStr ''retry a flow''))"

text \<open>A world whose release notes have the given body.\<close>

definition notes_world :: "string \<Rightarrow> world" where
  "notes_world body =
     stub_world (Inr ''k'') (serve [(release_notes_url, text_response body)]) (Inr KNone)"

text \<open>Release notes with two level-2 headings, with one, and with none.\<close>

definition notes_two :: string where
  "notes_two = ''# Notes'' @ newline @ ''## 3.0'' @ newline @ ''new'' @ newline @ ''## 2.9'' @ newline @ ''old''"

definition notes_one :: string where
  "notes_one = ''# Notes'' @ newline @ ''## 3.0'' @ newline @ ''new''"

definition notes_none :: string where
  "notes_none = ''# Notes'' @ newline @ ''nothing yet''"

text \<open>What runs when a registered handler is called and, if need be, awaited.\<close>

fun handler_body :: "handler \<Rightarrow> state \<Rightarrow> string result \<times> state" where
  "handler_body (SyncHandler f) = f"
| "handler_body (AsyncHandler f) = f"

text \<open>An HTTP client that raises a \<open>KeyError\<close> of its own on every request.\<close>

definition broken_client_world :: world where
  "broken_client_world = stub_world (Inr ''k'') (\<lambda>url. Inl (KeyError (KStr ''content-type''))) (Inr KNone)"

text \<open>
  The search tool as the specification describes it, with the namespace as a parameter:
  fetch and store the credential when the slot is unset, then delegate.
\<close>

definition search :: "string \<Rightarrow> world \<Rightarrow> string list \<Rightarrow> state \<Rightarrow> string result \<times> state" where
  "search ns w queries s =
     (if truthy (api_key s) then query_backend w queries ns s
      else case secret_load w ''tpuf-api-key'' of
             Inl e \<Rightarrow> (Inl e, log (SecretLoad ''tpuf-api-key'') s)
           | Inr k \<Rightarrow>
               query_backend w queries ns ((log (SecretLoad ''tpuf-api-key'') s)\<lparr>api_key := Some k\<rparr>))"

text \<open>A secret block that holds the empty string.\<close>

definition empty_secret_world :: world where
  "empty_secret_world = stub_world (Inr []) (serve []) (Inr KNone)"

text \<open>A classifier that answers with a label it was not offered.\<close>

definition mislabel_world :: world where
  "mislabel_world = stub_world (Inr ''k'') (serve retry_pages) (Inr (KStr ''deploy a flow''))"


text \<open>
  A manifest with a repeated description, a category without examples, and an item
  without a description.
\<close>

definition patchy_manifest :: pyval where
  "patchy_manifest =
     PDict [(''categories'', PList
       [PDict [(''examples'', PList
          [PDict [(''description'', PStr ''retry a flow''), (''relative_path'', PStr ''old/retry.py'')],
           PDict [(''description'', PStr ''cache a task''), (''relative_path'', PStr ''cache.py'')]])],
        PDict [],
        PDict [(''examples'', PList
          [PDict [(''description'', PStr ''retry a flow''), (''relative_path'', PStr ''new/retry.py'')],
           PDict [(''relative_path'', PStr ''untitled.py'')]])]])]"



section \<open>Properties\<close>

subsection \<open>Splitting at the delimiter\<close>

lemma split_from_no_occurrence:
  "\<forall>i<length s. \<not> prefix sep (drop i s) \<Longrightarrow> split_from sep cur s = [cur @ s]"
proof (induction s arbitrary: cur)
  case Nil
  show ?case by (simp add: split_from.simps)
next
  case (Cons c s)
  from Cons.prems have here: "\<not> prefix sep (c # s)" by fastforce
  from Cons.prems have "\<forall>i<length s. \<not> prefix sep (drop i s)" by fastforce
  then have "split_from sep (cur @ [c]) s = [(cur @ [c]) @ s]" by (rule Cons.IH)
  with here show ?case by (simp add: split_from.simps [of sep cur "c # s"])
qed

lemma split_from_first_occurrence:
  "sep \<noteq> [] \<Longrightarrow> prefix sep (drop p s) \<Longrightarrow> \<forall>i<p. \<not> prefix sep (drop i s) \<Longrightarrow>
   split_from sep cur s = (cur @ take p s) # split_from sep [] (drop (p + length sep) s)"
proof (induction s arbitrary: cur p)
  case Nil
  then show ?case by simp
next
  case (Cons c s)
  show ?case
  proof (cases p)
    case 0
    with Cons.prems show ?thesis by (simp add: split_from.simps [of sep cur "c # s"])
  next
    case (Suc q)
    with Cons.prems have here: "\<not> prefix sep (c # s)" by fastforce
    from Suc Cons.prems have at: "prefix sep (drop q s)" by simp
    from Suc Cons.prems have before: "\<forall>i<q. \<not> prefix sep (drop i s)" by fastforce
    have "split_from sep (cur @ [c]) s =
            ((cur @ [c]) @ take q s) # split_from sep [] (drop (q + length sep) s)"
      using Cons.prems(1) at before by (rule Cons.IH)
    with here Suc show ?thesis by (simp add: split_from.simps [of sep cur "c # s"])
  qed
qed

lemma occurrences_Cons:
  assumes "occurrences sep s = p # ps"
  shows "prefix sep (drop p s)" and "p < length s" and "\<forall>i<p. \<not> prefix sep (drop i s)"
    and "\<forall>q\<in>set ps. p < q \<and> q < length s \<and> prefix sep (drop q s)"
    and "\<forall>i. p < i \<and> i < length s \<and> prefix sep (drop i s) \<longrightarrow> i \<in> set ps"
proof -
  let ?P = "\<lambda>i. prefix sep (drop i s)"
  have "set (filter ?P [0..<length s]) = {i. i < length s \<and> ?P i}" by auto
  then have set_eq: "set (p # ps) = {i. i < length s \<and> ?P i}"
    using assms by (simp only: occurrences_def)
  have "sorted_wrt (<) (filter ?P [0..<length s])"
    by (rule sorted_wrt_filter) (simp add: sorted_wrt_upt)
  then have srt: "sorted_wrt (<) (p # ps)" using assms by (simp add: occurrences_def)
  from set_eq show "?P p" "p < length s" by auto
  from srt set_eq show "\<forall>q\<in>set ps. p < q \<and> q < length s \<and> ?P q" by auto
  show "\<forall>i<p. \<not> ?P i"
  proof (intro allI impI notI)
    fix i assume "i < p" "?P i"
    with \<open>p < length s\<close> have "i \<in> set (p # ps)" using set_eq by auto
    with srt \<open>i < p\<close> show False by auto
  qed
  show "\<forall>i. p < i \<and> i < length s \<and> ?P i \<longrightarrow> i \<in> set ps"
  proof (intro allI impI)
    fix i assume i: "p < i \<and> i < length s \<and> ?P i"
    then have "i \<in> {i. i < length s \<and> ?P i}" by simp
    then have "i \<in> set (p # ps)" by (simp only: set_eq)
    with i show "i \<in> set ps" by simp
  qed
qed

lemma prefix_nth:
  assumes "prefix d (drop p s)" and "k < length d"
  shows "s ! (p + k) = d ! k" and "p + k < length s"
proof -
  from assms(1) obtain r where r: "drop p s = d @ r" by (auto simp: prefix_def)
  then have "length (drop p s) = length d + length r" by simp
  with assms(2) show len: "p + k < length s" by simp
  from r assms(2) have "drop p s ! k = d ! k" by (simp add: nth_append)
  with len show "s ! (p + k) = d ! k" by simp
qed

lemma h2_delimiter_no_overlap:
  assumes "prefix h2_delimiter (drop p s)" and "prefix h2_delimiter (drop q s)" and "p < q"
  shows "p + 4 \<le> q"
proof (rule ccontr)
  assume "\<not> p + 4 \<le> q"
  define k where "k = q - p"
  with \<open>p < q\<close> \<open>\<not> p + 4 \<le> q\<close> have k: "q = p + k" "k = 1 \<or> k = 2 \<or> k = 3"
    by arith+
  have "s ! (q + 0) = h2_delimiter ! 0"
    using assms(2) by (rule prefix_nth) (simp add: h2_delimiter_def newline_def)
  then have q0: "s ! q = CHR 0x0A" by (simp add: h2_delimiter_def newline_def)
  have "k < length h2_delimiter" using k by (auto simp: h2_delimiter_def newline_def)
  with assms(1) have "s ! (p + k) = h2_delimiter ! k" by (rule prefix_nth)
  with k q0 show False by (auto simp: h2_delimiter_def newline_def)
qed

lemma split_no_delimiter:
  assumes "occurrences sep s = []"
  shows "split_from sep [] s = [s]"
proof -
  have "\<forall>i<length s. \<not> prefix sep (drop i s)"
    using assms by (auto simp: occurrences_def filter_empty_conv)
  then show ?thesis using split_from_no_occurrence [of s sep "[]"] by simp
qed

lemma split_one_delimiter:
  assumes "occurrences h2_delimiter s = [p]"
  shows "split_from h2_delimiter [] s = [take p s, drop (p + 4) s]"
proof -
  let ?d = h2_delimiter
  have len: "length ?d = 4" and ne: "?d \<noteq> []" by (simp_all add: h2_delimiter_def newline_def)
  note occ = occurrences_Cons [OF assms]
  have first: "split_from ?d [] s = ([] @ take p s) # split_from ?d [] (drop (p + length ?d) s)"
    using ne occ(1) occ(3) by (rule split_from_first_occurrence)
  have "\<forall>i<length (drop (p + 4) s). \<not> prefix ?d (drop i (drop (p + 4) s))"
  proof (intro allI impI notI)
    fix i assume i: "i < length (drop (p + 4) s)" and pre: "prefix ?d (drop i (drop (p + 4) s))"
    from pre have "prefix ?d (drop (i + (p + 4)) s)" by simp
    moreover from i have "p < i + (p + 4) \<and> i + (p + 4) < length s" by simp
    ultimately have "i + (p + 4) \<in> set []" using occ(5) by blast
    then show False by simp
  qed
  then have "split_from ?d [] (drop (p + 4) s) = [[] @ drop (p + 4) s]"
    by (rule split_from_no_occurrence)
  with first len show ?thesis by simp
qed

lemma split_two_delimiters:
  assumes "occurrences h2_delimiter s = p1 # p2 # rest"
  shows "p1 + 4 \<le> p2"
    and "\<exists>more. split_from h2_delimiter [] s = take p1 s # slice s (p1 + 4) p2 # more"
proof -
  let ?d = h2_delimiter
  have len: "length ?d = 4" and ne: "?d \<noteq> []" by (simp_all add: h2_delimiter_def newline_def)
  note occ = occurrences_Cons [OF assms]
  from occ(4) have p2: "p1 < p2" "p2 < length s" "prefix ?d (drop p2 s)" by simp_all
  from occ(1) p2(3) p2(1) show far: "p1 + 4 \<le> p2" by (rule h2_delimiter_no_overlap)
  have srt: "sorted_wrt (<) (occurrences ?d s)"
    unfolding occurrences_def by (rule sorted_wrt_filter) simp
  have first: "split_from ?d [] s = ([] @ take p1 s) # split_from ?d [] (drop (p1 + length ?d) s)"
    using ne occ(1) occ(3) by (rule split_from_first_occurrence)
  let ?t = "drop (p1 + 4) s" and ?q = "p2 - (p1 + 4)"
  have at: "prefix ?d (drop ?q ?t)" using far p2(3) by simp
  have before: "\<forall>i<?q. \<not> prefix ?d (drop i ?t)"
  proof (intro allI impI notI)
    fix i assume i: "i < ?q" and pre: "prefix ?d (drop i ?t)"
    from pre have "prefix ?d (drop (i + (p1 + 4)) s)" by simp
    moreover from i p2(2) have "p1 < i + (p1 + 4) \<and> i + (p1 + 4) < length s" by simp
    ultimately have "i + (p1 + 4) \<in> set (p2 # rest)" using occ(5) by blast
    moreover from srt assms have "\<forall>x\<in>set (p2 # rest). p2 \<le> x" by auto
    ultimately have "p2 \<le> i + (p1 + 4)" by blast
    with i show False by simp
  qed
  have "split_from ?d [] ?t = ([] @ take ?q ?t) # split_from ?d [] (drop (?q + length ?d) ?t)"
    using ne at before by (rule split_from_first_occurrence)
  with first len show "\<exists>more. split_from ?d [] s = take p1 s # slice s (p1 + 4) p2 # more"
    by (simp add: slice_def)
qed

subsection \<open>Release notes and topic dispatch\<close>

lemma get_latest_release_notes_eq:
  assumes "http_get w release_notes_url = Inr resp"
  shows "get_latest_release_notes w s =
           (py_index (split_from h2_delimiter [] (text_of resp)) 1, log (HttpGet release_notes_url) s)"
  using assms by (simp add: get_latest_release_notes_def py_split_def h2_delimiter_def newline_def Let_def)

lemma get_info_in_result:
  assumes "try_body tm topic s = (r, s')"
  shows "get_info_in tm topic s =
           ((case r of Inl (KeyError k) \<Rightarrow> Inl (invalid_topic topic) | _ \<Rightarrow> r), s')"
proof (cases r)
  case (Inl e)
  with assms show ?thesis by (cases e) (simp_all add: get_info_in_def)
next
  case (Inr v)
  with assms show ?thesis by (simp add: get_info_in_def)
qed

lemma try_body_latest:
  "try_body (tool_map w) ''latest_prefect_version'' s =
     get_latest_release_notes w (log (HandlerCall ''latest_prefect_version'') s)"
  by (simp add: try_body_def tool_map_def)

lemma get_info_latest:
  assumes "get_latest_release_notes w (log (HandlerCall ''latest_prefect_version'') s) = (r, s')"
  shows "get_info w ''latest_prefect_version'' s =
           ((case r of Inl (KeyError k) \<Rightarrow> Inl (invalid_topic ''latest_prefect_version'') | _ \<Rightarrow> r), s')"
  unfolding get_info_def using assms by (intro get_info_in_result) (simp add: try_body_latest)

lemma h2_length: "length h2_delimiter = 4"
  by (simp add: h2_delimiter_def newline_def)

text \<open>
  C5. When the release notes hold at least two occurrences of the delimiter, the first
  at \<open>p1\<close> and the second at \<open>p2\<close>, \<open>get_info\<close> on \<open>latest_prefect_version\<close> returns
  exactly the text between the end of the first occurrence and the start of the second.
\<close>

theorem get_info_returns_first_section:
  assumes "http_get w release_notes_url = Inr resp"
    and "occurrences h2_delimiter (text_of resp) = p1 # p2 # rest"
  shows "fst (get_info w ''latest_prefect_version'' s)
           = Inr (slice (text_of resp) (p1 + length h2_delimiter) p2)
         \<and> p1 + length h2_delimiter \<le> p2"
proof -
  from split_two_delimiters [OF assms(2)] obtain more
    where far: "p1 + 4 \<le> p2"
      and parts: "split_from h2_delimiter [] (text_of resp)
                    = take p1 (text_of resp) # slice (text_of resp) (p1 + 4) p2 # more"
    by blast
  have "get_latest_release_notes w (log (HandlerCall ''latest_prefect_version'') s)
          = (Inr (slice (text_of resp) (p1 + 4) p2),
             log (HttpGet release_notes_url) (log (HandlerCall ''latest_prefect_version'') s))"
    by (simp add: get_latest_release_notes_eq [OF assms(1)] parts py_index_def)
  then have "fst (get_info w ''latest_prefect_version'' s) = Inr (slice (text_of resp) (p1 + 4) p2)"
    by (simp add: get_info_latest)
  with far show ?thesis by (simp add: h2_length)
qed

lemma notes_world_get:
  "http_get (notes_world body) release_notes_url = Inr (text_response body)"
  by (simp add: notes_world_def stub_world_def serve_def)

theorem get_info_returns_first_section_witness:
  "occurrences h2_delimiter notes_two = [7, 18]
   \<and> fst (get_info (notes_world notes_two) ''latest_prefect_version'' fresh)
       = Inr (''3.0'' @ newline @ ''new'')"
proof -
  have occ: "occurrences h2_delimiter (text_of (text_response notes_two)) = 7 # 18 # []"
    by (simp add: text_response_def) code_simp
  have "slice (text_of (text_response notes_two)) (7 + length h2_delimiter) 18 = ''3.0'' @ newline @ ''new''"
    by (simp add: text_response_def) code_simp
  with get_info_returns_first_section [OF notes_world_get occ, of fresh] occ
  show ?thesis by (simp add: text_response_def)
qed

text \<open>
  C1, as stated, fails on a body with exactly one occurrence of the delimiter: the split
  has two segments and the second one is returned, directly and through \<open>get_info\<close>.
\<close>

theorem release_notes_one_delimiter_counterexample:
  "occurrences h2_delimiter notes_one = [7]
   \<and> fst (get_latest_release_notes (notes_world notes_one) fresh) = Inr (''3.0'' @ newline @ ''new'')
   \<and> fst (get_info (notes_world notes_one) ''latest_prefect_version'' fresh)
       = Inr (''3.0'' @ newline @ ''new'')"
proof -
  have occ: "occurrences h2_delimiter notes_one = [7]" by code_simp
  have split: "split_from h2_delimiter [] notes_one = [''# Notes'', ''3.0'' @ newline @ ''new'']"
    by code_simp
  have run: "get_latest_release_notes (notes_world notes_one) s
               = (Inr (''3.0'' @ newline @ ''new''), log (HttpGet release_notes_url) s)" for s
    by (simp add: get_latest_release_notes_eq [OF notes_world_get] text_response_def split py_index_def)
  from occ run show ?thesis by (simp add: get_info_latest)
qed

text \<open>
  C1, amended. A body without any occurrence of the delimiter makes the fetch fail with
  \<open>IndexError\<close>, directly and through \<open>get_info\<close>, and no text is returned. A body
  with exactly one occurrence is not an error: the text behind the occurrence is returned.
\<close>

theorem release_notes_without_delimiter:
  assumes "http_get w release_notes_url = Inr resp"
  shows "(occurrences h2_delimiter (text_of resp) = [] \<longrightarrow>
            fst (get_latest_release_notes w s) = Inl IndexError
            \<and> fst (get_info w ''latest_prefect_version'' s) = Inl IndexError)
         \<and> (\<forall>p. occurrences h2_delimiter (text_of resp) = [p] \<longrightarrow>
            fst (get_latest_release_notes w s)
              = Inr (drop (p + length h2_delimiter) (text_of resp))
            \<and> fst (get_info w ''latest_prefect_version'' s)
              = Inr (drop (p + length h2_delimiter) (text_of resp)))"
proof (intro conjI allI impI)
  assume none: "occurrences h2_delimiter (text_of resp) = []"
  have run: "get_latest_release_notes w t = (Inl IndexError, log (HttpGet release_notes_url) t)" for t
    by (simp add: get_latest_release_notes_eq [OF assms] split_no_delimiter [OF none] py_index_def)
  from run show "fst (get_latest_release_notes w s) = Inl IndexError" by simp
  from run show "fst (get_info w ''latest_prefect_version'' s) = Inl IndexError"
    by (simp add: get_info_latest)
next
  fix p assume one: "occurrences h2_delimiter (text_of resp) = [p]"
  have run: "get_latest_release_notes w t
               = (Inr (drop (p + 4) (text_of resp)), log (HttpGet release_notes_url) t)" for t
    by (simp add: get_latest_release_notes_eq [OF assms] split_one_delimiter [OF one] py_index_def)
  from run show "fst (get_latest_release_notes w s)
                   = Inr (drop (p + length h2_delimiter) (text_of resp))"
    by (simp add: h2_length)
  from run show "fst (get_info w ''latest_prefect_version'' s)
                   = Inr (drop (p + length h2_delimiter) (text_of resp))"
    by (simp add: get_info_latest h2_length)
qed

theorem release_notes_without_delimiter_witness:
  "occurrences h2_delimiter notes_none = []
   \<and> fst (get_latest_release_notes (notes_world notes_none) fresh) = Inl IndexError
   \<and> fst (get_info (notes_world notes_none) ''latest_prefect_version'' fresh) = Inl IndexError
   \<and> occurrences h2_delimiter notes_one = [7]
   \<and> fst (get_info (notes_world notes_one) ''latest_prefect_version'' fresh)
       = Inr (drop 11 notes_one)"
proof -
  have none: "occurrences h2_delimiter (text_of (text_response notes_none)) = []"
    by (simp add: text_response_def) code_simp
  have one: "occurrences h2_delimiter (text_of (text_response notes_one)) = [7]"
    by (simp add: text_response_def) code_simp
  from release_notes_without_delimiter [OF notes_world_get, of notes_none fresh] none
       release_notes_without_delimiter [OF notes_world_get, of notes_one fresh] one
  show ?thesis by (simp add: text_response_def h2_length)
qed

text \<open>
  C2. For a topic that is not a key of the handler mapping, \<open>get_info\<close> fails with the
  \<open>ValueError\<close> whose message ends in the topic, and leaves the state as it was: no
  handler was called and no request was made. This holds over any registry, and for the
  module's registry, whose only key is \<open>latest_prefect_version\<close>.
\<close>

theorem get_info_rejects_unknown_topic:
  "(topic \<notin> dom tm \<longrightarrow>
      get_info_in tm topic s = (Inl (ValueError (''Invalid topic: '' @ topic)), s))
   \<and> (topic \<noteq> ''latest_prefect_version'' \<longrightarrow>
      get_info w topic s = (Inl (ValueError (''Invalid topic: '' @ topic)), s))"
proof (intro conjI impI)
  assume "topic \<notin> dom tm"
  then have "tm topic = None" by (simp add: domIff)
  then have "try_body tm topic s = (Inl (KeyError (KStr topic)), s)"
    by (simp add: try_body_def)
  then show "get_info_in tm topic s = (Inl (ValueError (''Invalid topic: '' @ topic)), s)"
    by (simp add: get_info_in_result invalid_topic_def)
next
  assume "topic \<noteq> ''latest_prefect_version''"
  then have "try_body (tool_map w) topic s = (Inl (KeyError (KStr topic)), s)"
    by (simp add: try_body_def tool_map_def)
  then show "get_info w topic s = (Inl (ValueError (''Invalid topic: '' @ topic)), s)"
    by (simp add: get_info_def get_info_in_result invalid_topic_def)
qed

theorem get_info_rejects_unknown_topic_witness:
  "''latest'' \<notin> dom (tool_map (notes_world notes_two))
   \<and> get_info (notes_world notes_two) ''latest'' fresh
       = (Inl (ValueError ''Invalid topic: latest''), fresh)
   \<and> get_info_in (tool_map (notes_world notes_two)) ''latest'' fresh
       = (Inl (ValueError ''Invalid topic: latest''), fresh)"
proof -
  have "''latest'' \<notin> dom (tool_map (notes_world notes_two))" by (simp add: tool_map_def)
  with get_info_rejects_unknown_topic
         [of "''latest''" "tool_map (notes_world notes_two)" fresh "notes_world notes_two"]
  show ?thesis by simp
qed

text \<open>
  C10. When the handler registered for a topic raises a \<open>KeyError\<close> while \<open>get_info\<close>
  runs it, \<open>get_info\<close> raises the \<open>ValueError\<close> "Invalid topic" for that registered
  topic, and the handler's own error is lost.
\<close>

theorem get_info_masks_handler_key_error:
  assumes "tm topic = Some h"
    and "handler_body h (log (HandlerCall topic) s) = (Inl (KeyError k), s')"
  shows "get_info_in tm topic s = (Inl (ValueError (''Invalid topic: '' @ topic)), s')"
proof -
  from assms have "try_body tm topic s = (Inl (KeyError k), s')"
    by (cases h) (simp_all add: try_body_def)
  then show ?thesis by (simp add: get_info_in_result invalid_topic_def)
qed

theorem get_info_masks_handler_key_error_witness:
  "tool_map broken_client_world ''latest_prefect_version''
     = Some (AsyncHandler (get_latest_release_notes broken_client_world))
   \<and> fst (get_latest_release_notes broken_client_world
           (log (HandlerCall ''latest_prefect_version'') fresh))
       = Inl (KeyError (KStr ''content-type''))
   \<and> fst (get_info broken_client_world ''latest_prefect_version'' fresh)
       = Inl (ValueError ''Invalid topic: latest_prefect_version'')"
proof -
  let ?w = broken_client_world and ?t = "''latest_prefect_version''"
  have reg: "tool_map ?w ?t = Some (AsyncHandler (get_latest_release_notes ?w))"
    by (simp add: tool_map_def)
  have run: "handler_body (AsyncHandler (get_latest_release_notes ?w)) (log (HandlerCall ?t) fresh)
               = (Inl (KeyError (KStr ''content-type'')),
                  log (HttpGet release_notes_url) (log (HandlerCall ?t) fresh))"
    by (simp add: get_latest_release_notes_def broken_client_world_def stub_world_def Let_def)
  from get_info_masks_handler_key_error [of "tool_map ?w" ?t _ fresh, OF reg run] reg run
  show ?thesis by (simp add: get_info_def)
qed

subsection \<open>Documentation search\<close>

lemma search_prefect_2x_docs_search: "search_prefect_2x_docs = search ''prefect-2''"
  by (intro ext) (simp add: search_prefect_2x_docs_def search_def)

lemma search_prefect_3x_docs_search: "search_prefect_3x_docs = search ''prefect-3''"
  by (intro ext) (simp add: search_prefect_3x_docs_def search_def)

lemma search_result:
  assumes "truthy (api_key s) \<or> (\<exists>k. secret_load w ''tpuf-api-key'' = Inr k)"
  shows "\<exists>key loads. set loads \<subseteq> {SecretLoad ''tpuf-api-key''}
           \<and> (\<forall>ns. search ns w queries s =
                 (multi_query_tpuf w key queries ns,
                  \<lparr>api_key = key, trace = trace s @ loads @ [BackendQuery key queries ns]\<rparr>))"
proof (cases "truthy (api_key s)")
  case True
  then have "\<forall>ns. search ns w queries s =
                 (multi_query_tpuf w (api_key s) queries ns,
                  \<lparr>api_key = api_key s, trace = trace s @ [] @ [BackendQuery (api_key s) queries ns]\<rparr>)"
    by (simp add: search_def query_backend_def log_def)
  then show ?thesis by (intro exI [of _ "api_key s"] exI [of _ "[]"]) simp
next
  case False
  with assms obtain k where k: "secret_load w ''tpuf-api-key'' = Inr k" by blast
  with False have "\<forall>ns. search ns w queries s =
                 (multi_query_tpuf w (Some k) queries ns,
                  \<lparr>api_key = Some k,
                   trace = trace s @ [SecretLoad ''tpuf-api-key''] @ [BackendQuery (Some k) queries ns]\<rparr>)"
    by (simp add: search_def query_backend_def log_def)
  then show ?thesis
    by (intro exI [of _ "Some k"] exI [of _ "[SecretLoad ''tpuf-api-key'']"]) simp
qed

text \<open>
  C3. When the credential is at hand (the slot is set, or the secret block delivers one),
  both searches pass exactly the given queries and their own namespace literal to the
  backend, once, and return what the backend returns, be it text or an error. Up to the
  namespace literal the two do the same: same credential, same effects before the query.
\<close>

theorem search_delegates_to_backend:
  assumes "truthy (api_key s) \<or> (\<exists>k. secret_load w ''tpuf-api-key'' = Inr k)"
  shows "\<exists>key loads. set loads \<subseteq> {SecretLoad ''tpuf-api-key''}
           \<and> search_prefect_2x_docs w queries s =
                 (multi_query_tpuf w key queries ''prefect-2'',
                  \<lparr>api_key = key,
                   trace = trace s @ loads @ [BackendQuery key queries ''prefect-2'']\<rparr>)
           \<and> search_prefect_3x_docs w queries s =
                 (multi_query_tpuf w key queries ''prefect-3'',
                  \<lparr>api_key = key,
                   trace = trace s @ loads @ [BackendQuery key queries ''prefect-3'']\<rparr>)"
proof -
  from search_result [OF assms] obtain key loads
    where "set loads \<subseteq> {SecretLoad ''tpuf-api-key''}"
      and "\<forall>ns. search ns w queries s =
                 (multi_query_tpuf w key queries ns,
                  \<lparr>api_key = key, trace = trace s @ loads @ [BackendQuery key queries ns]\<rparr>)"
    by blast
  then show ?thesis
    unfolding search_prefect_2x_docs_search search_prefect_3x_docs_search by blast
qed

theorem search_delegates_to_backend_witness:
  "secret_load retry_world ''tpuf-api-key'' = Inr ''k''
   \<and> search_prefect_2x_docs retry_world [''task run id'', ''run metadata''] fresh
       = (Inr ''prefect-2: task run idrun metadata'',
          \<lparr>api_key = Some ''k'',
           trace = [SecretLoad ''tpuf-api-key'',
                    BackendQuery (Some ''k'') [''task run id'', ''run metadata''] ''prefect-2'']\<rparr>)
   \<and> search_prefect_3x_docs retry_world [''task run id'', ''run metadata''] fresh
       = (Inr ''prefect-3: task run idrun metadata'',
          \<lparr>api_key = Some ''k'',
           trace = [SecretLoad ''tpuf-api-key'',
                    BackendQuery (Some ''k'') [''task run id'', ''run metadata''] ''prefect-3'']\<rparr>)"
proof -
  have secret: "secret_load retry_world ''tpuf-api-key'' = Inr ''k''"
    by (simp add: retry_world_def stub_world_def)
  then have "truthy (api_key fresh) \<or> (\<exists>k. secret_load retry_world ''tpuf-api-key'' = Inr k)"
    by simp
  from search_delegates_to_backend [OF this, of "[''task run id'', ''run metadata'']"]
  obtain key loads where
    two: "search_prefect_2x_docs retry_world [''task run id'', ''run metadata''] fresh =
            (multi_query_tpuf retry_world key [''task run id'', ''run metadata''] ''prefect-2'',
             \<lparr>api_key = key,
              trace = trace fresh @ loads @ [BackendQuery key [''task run id'', ''run metadata''] ''prefect-2'']\<rparr>)"
    and three: "search_prefect_3x_docs retry_world [''task run id'', ''run metadata''] fresh =
            (multi_query_tpuf retry_world key [''task run id'', ''run metadata''] ''prefect-3'',
             \<lparr>api_key = key,
              trace = trace fresh @ loads @ [BackendQuery key [''task run id'', ''run metadata''] ''prefect-3'']\<rparr>)"
    by blast
  have run: "search_prefect_2x_docs retry_world [''task run id'', ''run metadata''] fresh
       = (Inr ''prefect-2: task run idrun metadata'',
          \<lparr>api_key = Some ''k'',
           trace = [SecretLoad ''tpuf-api-key'',
                    BackendQuery (Some ''k'') [''task run id'', ''run metadata''] ''prefect-2'']\<rparr>)"
    by (simp add: search_prefect_2x_docs_def retry_world_def stub_world_def fresh_def truthy_def
        query_backend_def log_def)
  from two run have key: "key = Some ''k''" and loads: "loads = [SecretLoad ''tpuf-api-key'']"
    by (simp_all add: fresh_def)
  from three key loads have "search_prefect_3x_docs retry_world [''task run id'', ''run metadata''] fresh
       = (Inr ''prefect-3: task run idrun metadata'',
          \<lparr>api_key = Some ''k'',
           trace = [SecretLoad ''tpuf-api-key'',
                    BackendQuery (Some ''k'') [''task run id'', ''run metadata''] ''prefect-3'']\<rparr>)"
    by (simp add: retry_world_def stub_world_def fresh_def)
  with secret run show ?thesis by simp
qed

lemma search_twice_result:
  "fst (search ns w queries (snd (search ns w queries s))) = fst (search ns w queries s)"
proof (cases "truthy (api_key s)")
  case True
  then show ?thesis by (simp add: search_def query_backend_def log_def)
next
  case False
  show ?thesis
  proof (cases "secret_load w ''tpuf-api-key''")
    case (Inl e)
    with False show ?thesis by (simp add: search_def log_def)
  next
    case (Inr k)
    with False show ?thesis
      by (cases "k = []") (simp_all add: search_def query_backend_def log_def truthy_def)
  qed
qed

lemma search_twice_loads:
  assumes "truthy (api_key s) \<or> (\<exists>k. secret_load w ''tpuf-api-key'' = Inr k \<and> k \<noteq> [])"
  shows "secret_loads (snd (search ns w queries (snd (search ns w queries s)))) \<le> secret_loads s + 1"
    and "api_key (snd (search ns w queries (snd (search ns w queries s))))
           = api_key (snd (search ns w queries s))"
proof -
  have "secret_loads (snd (search ns w queries (snd (search ns w queries s)))) \<le> secret_loads s + 1
        \<and> api_key (snd (search ns w queries (snd (search ns w queries s))))
           = api_key (snd (search ns w queries s))"
  proof (cases "truthy (api_key s)")
    case True
    then show ?thesis by (simp add: search_def query_backend_def log_def secret_loads_def)
  next
    case False
    with assms obtain k where "secret_load w ''tpuf-api-key'' = Inr k" "k \<noteq> []" by blast
    with False show ?thesis
      by (simp add: search_def query_backend_def log_def secret_loads_def truthy_def)
  qed
  then show "secret_loads (snd (search ns w queries (snd (search ns w queries s)))) \<le> secret_loads s + 1"
    and "api_key (snd (search ns w queries (snd (search ns w queries s))))
           = api_key (snd (search ns w queries s))"
    by simp_all
qed

text \<open>
  C7, as stated, fails when the secret block holds the empty string: the stored credential
  is false as a truth value, so the second call loads the secret and writes the slot again.
  Both calls succeed with the same output, and the secret is loaded twice.
\<close>

theorem search_twice_empty_secret_counterexample:
  "fst (search_prefect_2x_docs empty_secret_world [''flow run id''] fresh)
     = Inr ''prefect-2: flow run id''
   \<and> search_prefect_2x_docs empty_secret_world [''flow run id'']
        (snd (search_prefect_2x_docs empty_secret_world [''flow run id''] fresh))
     = (Inr ''prefect-2: flow run id'',
        \<lparr>api_key = Some [],
         trace = [SecretLoad ''tpuf-api-key'',
                  BackendQuery (Some []) [''flow run id''] ''prefect-2'',
                  SecretLoad ''tpuf-api-key'',
                  BackendQuery (Some []) [''flow run id''] ''prefect-2'']\<rparr>)
   \<and> secret_loads (snd (search_prefect_2x_docs empty_secret_world [''flow run id'']
        (snd (search_prefect_2x_docs empty_secret_world [''flow run id''] fresh)))) = 2"
  by (simp add: search_prefect_2x_docs_def empty_secret_world_def stub_world_def fresh_def
      truthy_def query_backend_def log_def secret_loads_def)

text \<open>
  C7, amended. Against deterministic stubs, calling a search twice with the same arguments
  gives the same output both times. When the slot already holds a non-empty credential, or
  the secret block delivers a non-empty one, the two calls together load the secret at most
  once, and the second call leaves the slot as the first one left it.
\<close>

theorem search_twice:
  "fst (search_prefect_2x_docs w queries (snd (search_prefect_2x_docs w queries s)))
     = fst (search_prefect_2x_docs w queries s)
   \<and> fst (search_prefect_3x_docs w queries (snd (search_prefect_3x_docs w queries s)))
     = fst (search_prefect_3x_docs w queries s)
   \<and> (truthy (api_key s) \<or> (\<exists>k. secret_load w ''tpuf-api-key'' = Inr k \<and> k \<noteq> []) \<longrightarrow>
        secret_loads (snd (search_prefect_2x_docs w queries (snd (search_prefect_2x_docs w queries s))))
          \<le> secret_loads s + 1
        \<and> api_key (snd (search_prefect_2x_docs w queries (snd (search_prefect_2x_docs w queries s))))
          = api_key (snd (search_prefect_2x_docs w queries s))
        \<and> secret_loads (snd (search_prefect_3x_docs w queries (snd (search_prefect_3x_docs w queries s))))
          \<le> secret_loads s + 1
        \<and> api_key (snd (search_prefect_3x_docs w queries (snd (search_prefect_3x_docs w queries s))))
          = api_key (snd (search_prefect_3x_docs w queries s)))"
  unfolding search_prefect_2x_docs_search search_prefect_3x_docs_search
  using search_twice_result search_twice_loads by blast

theorem search_twice_witness:
  "secret_load retry_world ''tpuf-api-key'' = Inr ''k''
   \<and> fst (search_prefect_2x_docs retry_world [''flow run id''] fresh) = Inr ''prefect-2: flow run id''
   \<and> fst (search_prefect_2x_docs retry_world [''flow run id'']
          (snd (search_prefect_2x_docs retry_world [''flow run id''] fresh)))
       = Inr ''prefect-2: flow run id''
   \<and> secret_loads (snd (search_prefect_2x_docs retry_world [''flow run id'']
          (snd (search_prefect_2x_docs retry_world [''flow run id''] fresh)))) \<le> 1"
proof -
  have secret: "secret_load retry_world ''tpuf-api-key'' = Inr ''k''"
    by (simp add: retry_world_def stub_world_def)
  then have hyp: "truthy (api_key fresh)
                  \<or> (\<exists>k. secret_load retry_world ''tpuf-api-key'' = Inr k \<and> k \<noteq> [])"
    by simp
  have first: "fst (search_prefect_2x_docs retry_world [''flow run id''] fresh)
                 = Inr ''prefect-2: flow run id''"
    by (simp add: search_prefect_2x_docs_def retry_world_def stub_world_def fresh_def truthy_def
        query_backend_def log_def)
  have zero: "secret_loads fresh = 0" by (simp add: secret_loads_def fresh_def)
  from search_twice [of retry_world "[''flow run id'']" fresh] hyp secret first zero
  show ?thesis by simp
qed

subsection \<open>Code example retrieval\<close>


lemma dict_get_missing:
  "\<forall>k\<in>set (map fst d). \<not> key_eq k key \<Longrightarrow> dict_get d key = Inl (KeyError key)"
  by (induction d) auto

lemma code_example_success:
  assumes "fst (get_prefect_code_example w related_to s) = Inr out"
  shows "\<exists>resp manifest items key path code.
           http_get w manifest_url = Inr resp \<and> json_of resp = Inr manifest
           \<and> example_items_of manifest = Inr items
           \<and> classify_async w related_to (map fst items) = Inr key
           \<and> dict_get items key = Inr path
           \<and> http_get w (base_url @ ''/'' @ py_str w path) = Inr code
           \<and> out = ''LINK:'' @ newline @ (base_url @ ''/'' @ py_str w path) @ newline @ newline
                   @ '' EXAMPLE:'' @ newline @ text_of code"
  using assms
  by (auto simp: get_prefect_code_example_def Let_def split: sum.splits)

lemma code_example_until_classified:
  assumes "http_get w manifest_url = Inr resp" and "json_of resp = Inr manifest"
    and "example_items_of manifest = Inr items"
    and "classify_async w related_to (map fst items) = Inr key"
  shows "get_prefect_code_example w related_to s =
           (case dict_get items key of
              Inl e \<Rightarrow> (Inl e, s\<lparr>trace := trace s @ [HttpGet manifest_url, Classify related_to (map fst items)]\<rparr>)
            | Inr path \<Rightarrow>
                (case http_get w (base_url @ ''/'' @ py_str w path) of
                   Inl e \<Rightarrow> Inl e
                 | Inr code \<Rightarrow>
                     Inr (''LINK:'' @ newline @ (base_url @ ''/'' @ py_str w path) @ newline @ newline
                          @ '' EXAMPLE:'' @ newline @ text_of code),
                 s\<lparr>trace := trace s @ [HttpGet manifest_url, Classify related_to (map fst items),
                                       HttpGet (base_url @ ''/'' @ py_str w path)]\<rparr>))"
  using assms
  by (simp add: get_prefect_code_example_def Let_def log_def split: sum.splits)

lemma retry_items: "example_items_of retry_manifest = Inr [(KStr ''retry a flow'', PStr ''examples/retry.py'')]"
  by (simp add: example_items_of_def retry_manifest_def py_get_def py_iter_def py_hash_def key_of_def)

lemma retry_pages_manifest: "serve retry_pages manifest_url = Inr (json_response retry_manifest)"
  by (simp add: serve_def retry_pages_def)

lemma retry_pages_example:
  "serve retry_pages (base_url @ ''/examples/retry.py'') = Inr (text_response ''flow.retry()'')"
  by (simp add: serve_def retry_pages_def manifest_url_def)

lemma retry_world_run:
  "get_prefect_code_example retry_world ''how do I retry a failed flow'' fresh
     = (Inr (''LINK:'' @ newline @ base_url @ ''/examples/retry.py'' @ newline @ newline
             @ '' EXAMPLE:'' @ newline @ ''flow.retry()''),
        \<lparr>api_key = None,
         trace = [HttpGet manifest_url, Classify ''how do I retry a failed flow'' [KStr ''retry a flow''],
                  HttpGet (base_url @ ''/examples/retry.py'')]\<rparr>)"
proof -
  have 1: "http_get retry_world manifest_url = Inr (json_response retry_manifest)"
    by (simp add: retry_world_def stub_world_def retry_pages_manifest)
  have 2: "json_of (json_response retry_manifest) = Inr retry_manifest"
    by (simp add: json_response_def)
  have 3: "classify_async retry_world ''how do I retry a failed flow''
             (map fst [(KStr ''retry a flow'', PStr ''examples/retry.py'')]) = Inr (KStr ''retry a flow'')"
    by (simp add: retry_world_def stub_world_def)
  have 4: "http_get retry_world (base_url @ ''/examples/retry.py'') = Inr (text_response ''flow.retry()'')"
    by (simp add: retry_world_def stub_world_def retry_pages_example)
  show ?thesis
    by (simp add: code_example_until_classified [OF 1 2 retry_items 3] key_eq_def py_str_def 4
        text_response_def fresh_def)
qed

text \<open>
  C4, as stated, fails in the retry scenario: the fourth line of the output is
  \<open>EXAMPLE:\<close> behind a space, so the output is not the string the specification's format
  gives for the same link and content.
\<close>

theorem code_example_format_counterexample:
  "fst (get_prefect_code_example retry_world ''how do I retry a failed flow'' fresh)
     = Inr (''LINK:'' @ newline @ base_url @ ''/examples/retry.py'' @ newline @ newline
            @ '' EXAMPLE:'' @ newline @ ''flow.retry()'')
   \<and> fst (get_prefect_code_example retry_world ''how do I retry a failed flow'' fresh)
     \<noteq> Inr (spec_format (base_url @ ''/examples/retry.py'') ''flow.retry()'')"
  by (simp add: retry_world_run spec_format_def newline_def)

text \<open>
  C4, amended. Every successful run of \<open>get_prefect_code_example\<close> returns exactly: the
  line \<open>LINK:\<close>, the resolved URL (the base URL, a slash, the path stored under the label
  the classifier chose), a blank line, a line made of a space and \<open>EXAMPLE:\<close>, and the
  text fetched from that URL.
\<close>

theorem code_example_format:
  assumes "fst (get_prefect_code_example w related_to s) = Inr out"
  shows "\<exists>resp manifest items key path code.
           http_get w manifest_url = Inr resp \<and> json_of resp = Inr manifest
           \<and> example_items_of manifest = Inr items
           \<and> classify_async w related_to (map fst items) = Inr key
           \<and> dict_get items key = Inr path
           \<and> http_get w (base_url @ ''/'' @ py_str w path) = Inr code
           \<and> out = ''LINK:'' @ newline @ (base_url @ ''/'' @ py_str w path) @ newline @ newline
                   @ '' EXAMPLE:'' @ newline @ text_of code"
  using assms by (rule code_example_success)

theorem code_example_format_witness:
  "fst (get_prefect_code_example retry_world ''how do I retry a failed flow'' fresh)
     = Inr (''LINK:'' @ newline @ base_url @ ''/examples/retry.py'' @ newline @ newline
            @ '' EXAMPLE:'' @ newline @ ''flow.retry()'')
   \<and> (\<exists>path code.
         http_get retry_world (base_url @ ''/'' @ py_str retry_world path) = Inr code
         \<and> ''LINK:'' @ newline @ base_url @ ''/examples/retry.py'' @ newline @ newline
             @ '' EXAMPLE:'' @ newline @ ''flow.retry()''
           = ''LINK:'' @ newline @ (base_url @ ''/'' @ py_str retry_world path) @ newline @ newline
             @ '' EXAMPLE:'' @ newline @ text_of code)"
proof -
  have run: "fst (get_prefect_code_example retry_world ''how do I retry a failed flow'' fresh)
     = Inr (''LINK:'' @ newline @ base_url @ ''/examples/retry.py'' @ newline @ newline
            @ '' EXAMPLE:'' @ newline @ ''flow.retry()'')"
    by (simp add: retry_world_run)
  from code_example_format [OF run] run show ?thesis by blast
qed

text \<open>
  C6. When the classifier answers with a label that is not a key of the flattened mapping,
  \<open>get_prefect_code_example\<close> fails with the \<open>KeyError\<close> of that label; it has fetched
  the manifest and asked the classifier, and it builds no link and fetches nothing else.
\<close>

theorem code_example_unknown_label:
  assumes "http_get w manifest_url = Inr resp" and "json_of resp = Inr manifest"
    and "example_items_of manifest = Inr items"
    and "classify_async w related_to (map fst items) = Inr key"
    and "\<forall>k\<in>set (map fst items). \<not> key_eq k key"
  shows "get_prefect_code_example w related_to s =
           (Inl (KeyError key),
            s\<lparr>trace := trace s @ [HttpGet manifest_url, Classify related_to (map fst items)]\<rparr>)"
  by (simp add: code_example_until_classified [OF assms(1-4)] dict_get_missing [OF assms(5)])

theorem code_example_unknown_label_witness:
  "example_items_of retry_manifest = Inr [(KStr ''retry a flow'', PStr ''examples/retry.py'')]
   \<and> classify_async mislabel_world ''how do I retry a failed flow'' [KStr ''retry a flow'']
       = Inr (KStr ''deploy a flow'')
   \<and> get_prefect_code_example mislabel_world ''how do I retry a failed flow'' fresh =
       (Inl (KeyError (KStr ''deploy a flow'')),
        \<lparr>api_key = None,
         trace = [HttpGet manifest_url,
                  Classify ''how do I retry a failed flow'' [KStr ''retry a flow'']]\<rparr>)"
proof -
  let ?items = "[(KStr ''retry a flow'', PStr ''examples/retry.py'')]"
  have 1: "http_get mislabel_world manifest_url = Inr (json_response retry_manifest)"
    by (simp add: mislabel_world_def stub_world_def retry_pages_manifest)
  have 2: "json_of (json_response retry_manifest) = Inr retry_manifest"
    by (simp add: json_response_def)
  have 3: "classify_async mislabel_world ''how do I retry a failed flow'' (map fst ?items)
             = Inr (KStr ''deploy a flow'')"
    by (simp add: mislabel_world_def stub_world_def)
  have 4: "\<forall>k\<in>set (map fst ?items). \<not> key_eq k (KStr ''deploy a flow'')"
    by (simp add: key_eq_def key_norm_def)
  from code_example_unknown_label [OF 1 2 retry_items 3 4, of fresh] 3 retry_items
  show ?thesis by (simp add: fresh_def)
qed







subsection \<open>Flattening the manifest\<close>

lemma key_eq_refl: "key_eq k k"
  by (simp add: key_eq_def)

lemma dict_get_dict_set:
  "dict_get (dict_set d k v) k' = (if key_eq k k' then Inr v else dict_get d k')"
  by (induction d) (auto simp: key_eq_def)

lemma last_write_wins_Nil: "last_write_wins [] k = None"
  by (simp add: last_write_wins_def)

lemma last_write_wins_Cons:
  "last_write_wins (e # es) k =
     (case last_write_wins es k of
        Some v \<Rightarrow> Some v
      | None \<Rightarrow> if describes k e then Some (snd e) else None)"
  by (cases "filter (describes k) es") (simp_all add: last_write_wins_def)

lemma last_write_wins_append:
  "last_write_wins (xs @ ys) k =
     (case last_write_wins ys k of Some v \<Rightarrow> Some v | None \<Rightarrow> last_write_wins xs k)"
  by (induction xs) (auto simp: last_write_wins_Nil last_write_wins_Cons split: option.splits)

lemma py_get_scalar: "is_dict item \<Longrightarrow> py_get item key PNone = Inr (scalar_field item key)"
  by (cases item) (simp_all add: is_dict_def py_get_def scalar_field_def field_def split: option.splits)

lemma py_get_list:
  "is_dict obj \<Longrightarrow> list_or_missing obj key \<Longrightarrow>
   py_get obj key (PList []) = Inr (PList (list_field obj key))"
  by (cases obj)
     (auto simp: is_dict_def py_get_def list_or_missing_def list_field_def field_def
           split: option.splits pyval.splits)

lemma add_items_spec:
  assumes "list_all item_shape items"
  shows "\<exists>d'. add_items d items = Inr d'
           \<and> (\<forall>k. dict_get d' k =
                 (case last_write_wins (map item_entry items) k of
                    None \<Rightarrow> dict_get d k | Some v \<Rightarrow> Inr v))
           \<and> (items = [] \<longrightarrow> d' = d)"
  using assms
proof (induction items arbitrary: d)
  case Nil
  show ?case by (simp add: last_write_wins_Nil)
next
  case (Cons item items)
  from Cons.prems have rest: "list_all item_shape items" by simp
  from Cons.prems have "item_shape item" by simp
  then have shape: "is_dict item" "key_of (scalar_field item ''description'') \<noteq> None"
    by (simp_all add: item_shape_def)
  from shape(2) obtain k1 where k1: "key_of (scalar_field item ''description'') = Some k1" by blast
  let ?pv = "scalar_field item ''relative_path''"
  from Cons.IH [OF rest, of "dict_set d k1 ?pv"] obtain d'
    where run: "add_items (dict_set d k1 ?pv) items = Inr d'"
      and get: "\<forall>k. dict_get d' k =
                 (case last_write_wins (map item_entry items) k of
                    None \<Rightarrow> dict_get (dict_set d k1 ?pv) k | Some v \<Rightarrow> Inr v)"
    by blast
  have "add_items d (item # items) = Inr d'"
    using shape(1) k1 run by (simp add: py_get_scalar py_hash_def)
  moreover have "dict_get d' k =
                 (case last_write_wins (map item_entry (item # items)) k of
                    None \<Rightarrow> dict_get d k | Some v \<Rightarrow> Inr v)" for k
    using get k1
    by (simp add: last_write_wins_Cons dict_get_dict_set describes_def item_entry_def
             split: option.splits)
  ultimately show ?case by simp
qed

lemma add_categories_spec:
  assumes "list_all category_shape categories"
  shows "\<exists>d'. add_categories d categories = Inr d'
           \<and> (\<forall>k. dict_get d' k =
                 (case last_write_wins (concat (map category_entries categories)) k of
                    None \<Rightarrow> dict_get d k | Some v \<Rightarrow> Inr v))
           \<and> (concat (map category_entries categories) = [] \<longrightarrow> d' = d)"
  using assms
proof (induction categories arbitrary: d)
  case Nil
  show ?case by (simp add: last_write_wins_Nil)
next
  case (Cons c cs)
  let ?items = "list_field c ''examples''"
  from Cons.prems have rest: "list_all category_shape cs" by simp
  from Cons.prems have "category_shape c" by simp
  then have shape: "is_dict c" "list_or_missing c ''examples''" "list_all item_shape ?items"
    by (simp_all add: category_shape_def)
  from add_items_spec [OF shape(3), of d] obtain d1
    where run1: "add_items d ?items = Inr d1"
      and get1: "\<forall>k. dict_get d1 k =
                 (case last_write_wins (map item_entry ?items) k of
                    None \<Rightarrow> dict_get d k | Some v \<Rightarrow> Inr v)"
      and same1: "?items = [] \<longrightarrow> d1 = d"
    by blast
  from Cons.IH [OF rest, of d1] obtain d'
    where run: "add_categories d1 cs = Inr d'"
      and get: "\<forall>k. dict_get d' k =
                 (case last_write_wins (concat (map category_entries cs)) k of
                    None \<Rightarrow> dict_get d1 k | Some v \<Rightarrow> Inr v)"
      and same: "concat (map category_entries cs) = [] \<longrightarrow> d' = d1"
    by blast
  have "add_categories d (c # cs) = Inr d'"
    using shape(1,2) run1 run by (simp add: py_get_list py_iter_def)
  moreover have "dict_get d' k =
                 (case last_write_wins (concat (map category_entries (c # cs))) k of
                    None \<Rightarrow> dict_get d k | Some v \<Rightarrow> Inr v)" for k
    using get get1
    by (simp add: last_write_wins_append category_entries_def split: option.splits)
  moreover have "concat (map category_entries (c # cs)) = [] \<longrightarrow> d' = d"
    using same same1 by (simp add: category_entries_def)
  ultimately show ?case by simp
qed

text \<open>
  C9. For a manifest of the expected shape, each of whose keys may be missing, the
  flattening raises nothing and yields a dictionary in which a description stands for the
  relative path of the last example that carries it, over all examples of all categories
  in the order of the document; a missing \<open>categories\<close> or \<open>examples\<close> key counts as the
  empty list, and without any example the dictionary is empty.
\<close>

theorem example_items_last_write_wins:
  assumes "manifest_shape manifest"
  shows "\<exists>d. example_items_of manifest = Inr d
           \<and> (\<forall>k. dict_get d k =
                 (case last_write_wins (manifest_entries manifest) k of
                    None \<Rightarrow> Inl (KeyError k) | Some v \<Rightarrow> Inr v))
           \<and> (manifest_entries manifest = [] \<longrightarrow> d = [])"
proof -
  let ?cs = "list_field manifest ''categories''"
  from assms have shape: "is_dict manifest" "list_or_missing manifest ''categories''"
      "list_all category_shape ?cs"
    by (simp_all add: manifest_shape_def)
  from add_categories_spec [OF shape(3), of "[]"] obtain d
    where run: "add_categories [] ?cs = Inr d"
      and get: "\<forall>k. dict_get d k =
                 (case last_write_wins (concat (map category_entries ?cs)) k of
                    None \<Rightarrow> dict_get [] k | Some v \<Rightarrow> Inr v)"
      and same: "concat (map category_entries ?cs) = [] \<longrightarrow> d = []"
    by blast
  have "example_items_of manifest = Inr d"
    using shape(1,2) run by (simp add: example_items_of_def py_get_list py_iter_def)
  with get same show ?thesis by (simp add: manifest_entries_def split: option.splits)
qed

lemma patchy_items:
  "example_items_of patchy_manifest =
     Inr [(KStr ''retry a flow'', PStr ''new/retry.py''),
          (KStr ''cache a task'', PStr ''cache.py''),
          (KNone, PStr ''untitled.py'')]"
  by (simp add: example_items_of_def patchy_manifest_def py_get_def py_iter_def py_hash_def
      key_of_def key_eq_def key_norm_def)

theorem example_items_last_write_wins_witness:
  "manifest_shape patchy_manifest
   \<and> manifest_entries patchy_manifest =
       [(PStr ''retry a flow'', PStr ''old/retry.py''), (PStr ''cache a task'', PStr ''cache.py''),
        (PStr ''retry a flow'', PStr ''new/retry.py''), (PNone, PStr ''untitled.py'')]
   \<and> (\<exists>d. example_items_of patchy_manifest = Inr d
          \<and> dict_get d (KStr ''retry a flow'') = Inr (PStr ''new/retry.py'')
          \<and> dict_get d (KStr ''deploy a flow'') = Inl (KeyError (KStr ''deploy a flow'')))
   \<and> manifest_shape (PDict [])
   \<and> example_items_of (PDict []) = Inr []"
proof -
  have shape: "manifest_shape patchy_manifest"
    by (simp add: manifest_shape_def category_shape_def item_shape_def is_dict_def
        list_or_missing_def list_field_def scalar_field_def field_def key_of_def patchy_manifest_def)
  have entries: "manifest_entries patchy_manifest =
       [(PStr ''retry a flow'', PStr ''old/retry.py''), (PStr ''cache a task'', PStr ''cache.py''),
        (PStr ''retry a flow'', PStr ''new/retry.py''), (PNone, PStr ''untitled.py'')]"
    by (simp add: manifest_entries_def category_entries_def item_entry_def list_field_def
        scalar_field_def field_def patchy_manifest_def)
  have last1: "last_write_wins (manifest_entries patchy_manifest) (KStr ''retry a flow'')
                 = Some (PStr ''new/retry.py'')"
    by (simp add: entries last_write_wins_def describes_def key_of_def key_eq_def key_norm_def)
  have last2: "last_write_wins (manifest_entries patchy_manifest) (KStr ''deploy a flow'') = None"
    by (simp add: entries last_write_wins_def describes_def key_of_def key_eq_def key_norm_def)
  have empty_shape: "manifest_shape (PDict [])"
    by (simp add: manifest_shape_def is_dict_def list_or_missing_def list_field_def field_def)
  have empty_entries: "manifest_entries (PDict []) = []"
    by (simp add: manifest_entries_def list_field_def field_def)
  from example_items_last_write_wins [OF shape] obtain d
    where run: "example_items_of patchy_manifest = Inr d"
      and get: "\<forall>k. dict_get d k =
                 (case last_write_wins (manifest_entries patchy_manifest) k of
                    None \<Rightarrow> Inl (KeyError k) | Some v \<Rightarrow> Inr v)"
    by blast
  from get last1 have "dict_get d (KStr ''retry a flow'') = Inr (PStr ''new/retry.py'')"
    by simp
  moreover from get last2
  have "dict_get d (KStr ''deploy a flow'') = Inl (KeyError (KStr ''deploy a flow''))"
    by simp
  ultimately have "\<exists>d. example_items_of patchy_manifest = Inr d
          \<and> dict_get d (KStr ''retry a flow'') = Inr (PStr ''new/retry.py'')
          \<and> dict_get d (KStr ''deploy a flow'') = Inl (KeyError (KStr ''deploy a flow''))"
    using run by blast
  moreover from example_items_last_write_wins [OF empty_shape] empty_entries
  have "example_items_of (PDict []) = Inr []" by auto
  ultimately show ?thesis using shape entries empty_shape by simp
qed

end
